theory Spec2Isabelle
  imports Main "HOL-Library.AList" "HOL-Library.Option_ord"
begin

section \<open>The SQS batch processor of \<^verbatim>\<open>src/functions/dlq-demo.ts\<close>\<close>

text \<open>
  The handler receives a batch of queue messages, starts \<^verbatim>\<open>processRecord\<close> on each of
  them, joins the promises with \<^verbatim>\<open>Promise.all\<close> and reports the identifiers of the
  messages whose processing failed. The embedding below follows the source line by line.
  What the source takes from its platform (the \<^verbatim>\<open>aws-lambda\<close> types,
  \<^verbatim>\<open>JSON.parse\<close>, promises, timers and the console) is modelled first.

  Strings are \<^typ>\<open>string\<close>. A JavaScript string is a sequence of 16-bit code
  units; a code unit below 128 is one \<^typ>\<open>char\<close>, a larger one is the two or three
  bytes \<open>encode_unit\<close> gives, so that two strings are equal here exactly when
  their code units are.
\<close>

subsection \<open>The types of \<^verbatim>\<open>aws-lambda\<close>\<close>

text \<open>
  \<^verbatim>\<open>import { SQSEvent, SQSRecord, Context, SQSBatchResponse } from 'aws-lambda'\<close>.
  The declarations are the library's; the fields are the ones of its \<^verbatim>\<open>SQSRecord\<close>.
  \<open>attributes\<close> holds the delivery metadata (\<^verbatim>\<open>ApproximateReceiveCount\<close>,
  \<^verbatim>\<open>SentTimestamp\<close>, ...), as pairs of a name and a value.
\<close>

record SQSRecord =
  messageId :: string
  receiptHandle :: string
  body :: string
  attributes :: "(string \<times> string) list"
  messageAttributes :: "(string \<times> string) list"
  md5OfBody :: string
  eventSource :: string
  eventSourceARN :: string
  awsRegion :: string

record SQSEvent =
  Records :: "SQSRecord list"

record SQSBatchItemFailure =
  itemIdentifier :: string

record SQSBatchResponse =
  batchItemFailures :: "SQSBatchItemFailure list"

subsection \<open>Errors\<close>

text \<open>
  The two classes of the source, \<^verbatim>\<open>BusinessLogicError\<close> and \<^verbatim>\<open>TemporaryError\<close>
  (both \<^verbatim>\<open>extends Error\<close>, both carrying their message), the plain \<^verbatim>\<open>Error\<close>
  of the timeout branch, and the two errors the runtime itself throws: the
  \<^verbatim>\<open>SyntaxError\<close> of \<^verbatim>\<open>JSON.parse\<close> and the \<^verbatim>\<open>TypeError\<close> of reading a
  property of \<^verbatim>\<open>null\<close> (their messages are the engine's and are left out).
\<close>

datatype js_error =
    SyntaxError
  | TypeError
  | BusinessLogicError string
  | TemporaryError string
  | Error string

text \<open>\<^verbatim>\<open>interface ProcessingResult\<close>; the optional \<^verbatim>\<open>error?\<close> is an option.\<close>

record ProcessingResult =
  success :: bool
  messageId :: string
  error :: "js_error option"

subsection \<open>JSON values and \<^verbatim>\<open>JSON.parse\<close>\<close>

text \<open>
  \<^verbatim>\<open>JSON.parse\<close> is a built-in of the runtime. It is modelled after the JSON grammar
  (ECMA-404) as ECMAScript reads it: a lexer, then a stack automaton over the tokens.
  A number keeps its text. An object keeps its members in the order of their first
  appearance, and a repeated key overwrites the earlier value.
\<close>

datatype json =
    JNull
  | JBool bool
  | JNumber string
  | JString string
  | JArray "json list"
  | JObject "(string \<times> json) list"

datatype token =
    LBrace | RBrace | LBracket | RBracket | Colon | Comma
  | TString string | TNumber string | TTrue | TFalse | TNull

definition is_ws :: "char \<Rightarrow> bool" where
  "is_ws c = (c = CHR 0x20 \<or> c = CHR 0x09 \<or> c = CHR 0x0A \<or> c = CHR 0x0D)"

definition is_digit :: "char \<Rightarrow> bool" where
  "is_digit c = (c \<in> set ''0123456789'')"

definition is_number_char :: "char \<Rightarrow> bool" where
  "is_number_char c = (c \<in> set ''0123456789+-.eE'')"

definition hex_value :: "char \<Rightarrow> nat option" where
  "hex_value c =
     (let n = (of_char c :: nat) in
      if 48 \<le> n \<and> n \<le> 57 then Some (n - 48)
      else if 65 \<le> n \<and> n \<le> 70 then Some (n - 55)
      else if 97 \<le> n \<and> n \<le> 102 then Some (n - 87)
      else None)"

fun hex4 :: "string \<Rightarrow> nat option" where
  "hex4 [a, b, c, d] =
     (case (hex_value a, hex_value b, hex_value c, hex_value d) of
        (Some w, Some x, Some y, Some z) \<Rightarrow> Some (4096 * w + 256 * x + 16 * y + z)
      | _ \<Rightarrow> None)"
| "hex4 _ = None"

definition encode_unit :: "nat \<Rightarrow> string" where
  "encode_unit u =
     (if u < 128 then [char_of u]
      else if u < 2048 then [char_of (192 + u div 64), char_of (128 + u mod 64)]
      else [char_of (224 + u div 4096), char_of (128 + (u div 64) mod 64),
            char_of (128 + u mod 64)])"

definition unescape :: "char \<Rightarrow> char option" where
  "unescape e =
     (if e = CHR 0x22 then Some (CHR 0x22)
      else if e = CHR 0x5C then Some (CHR 0x5C)
      else if e = CHR ''/'' then Some (CHR ''/'')
      else if e = CHR ''b'' then Some (CHR 0x08)
      else if e = CHR ''f'' then Some (CHR 0x0C)
      else if e = CHR ''n'' then Some (CHR 0x0A)
      else if e = CHR ''r'' then Some (CHR 0x0D)
      else if e = CHR ''t'' then Some (CHR 0x09)
      else None)"

text \<open>
  The characters of a string after its opening quote: the decoded string and the input
  after the closing quote, or \<open>None\<close> when the string is not closed, holds a
  control character or a bad escape.
\<close>

function scan_string :: "string \<Rightarrow> string \<Rightarrow> (string \<times> string) option" where
  "scan_string acc [] = None"
| "scan_string acc (c # cs) =
     (if c = CHR 0x22 then Some (acc, cs)
      else if c = CHR 0x5C then
        (case cs of
           [] \<Rightarrow> None
         | e # cs' \<Rightarrow>
             if e = CHR ''u'' then
               (case hex4 (take 4 cs') of
                  Some u \<Rightarrow> scan_string (acc @ encode_unit u) (drop 4 cs')
                | None \<Rightarrow> None)
             else
               (case unescape e of
                  Some ch \<Rightarrow> scan_string (acc @ [ch]) cs'
                | None \<Rightarrow> None))
      else if (of_char c :: nat) < 32 then None
      else scan_string (acc @ [c]) cs)"
  by pat_completeness auto
termination
  by (relation "measure (\<lambda>(acc, cs). length cs)") auto

text \<open>The number grammar: \<^verbatim>\<open>-? (0 | [1-9][0-9]*) (. [0-9]+)? ([eE] [+-]? [0-9]+)?\<close>.\<close>

definition digits1 :: "string \<Rightarrow> bool" where
  "digits1 cs = (cs \<noteq> [] \<and> list_all is_digit cs)"

fun valid_exponent :: "string \<Rightarrow> bool" where
  "valid_exponent [] = True"
| "valid_exponent (c # cs) =
     ((c = CHR ''e'' \<or> c = CHR ''E'') \<and>
      (case cs of
         [] \<Rightarrow> False
       | s # ds \<Rightarrow> if s = CHR ''+'' \<or> s = CHR ''-'' then digits1 ds else digits1 cs))"

fun valid_fraction :: "string \<Rightarrow> bool" where
  "valid_fraction [] = True"
| "valid_fraction (c # cs) =
     (if c = CHR ''.'' then takeWhile is_digit cs \<noteq> [] \<and> valid_exponent (dropWhile is_digit cs)
      else valid_exponent (c # cs))"

fun valid_integer :: "string \<Rightarrow> bool" where
  "valid_integer [] = False"
| "valid_integer (c # cs) =
     (if c = CHR ''0'' then valid_fraction cs
      else is_digit c \<and> valid_fraction (dropWhile is_digit cs))"

fun valid_number :: "string \<Rightarrow> bool" where
  "valid_number [] = False"
| "valid_number (c # cs) = (if c = CHR ''-'' then valid_integer cs else valid_integer (c # cs))"

definition cons_token :: "token \<Rightarrow> token list option \<Rightarrow> token list option" where
  "cons_token t r = map_option ((#) t) r"

lemma scan_string_shorter:
  "scan_string acc cs = Some (s, rest) \<Longrightarrow> length rest < length cs"
proof (induction acc cs rule: scan_string.induct)
  case (1 acc)
  then show ?case by simp
next
  case (2 acc c cs)
  show ?case
  proof (cases "c = CHR 0x22")
    case True
    with "2.prems" show ?thesis by simp
  next
    case notq: False
    show ?thesis
    proof (cases "c = CHR 0x5C")
      case True
      with notq "2.prems" obtain e cs' where cs: "cs = e # cs'"
        by (cases cs) auto
      show ?thesis
      proof (cases "e = CHR ''u''")
        case u: True
        with True notq cs "2.prems" obtain u where h: "hex4 (take 4 cs') = Some u"
          and r: "scan_string (acc @ encode_unit u) (drop 4 cs') = Some (s, rest)"
          by (auto split: option.splits)
        from "2.IH"(1) [OF notq True cs u h r] have "length rest < length (drop 4 cs')" .
        with cs show ?thesis by simp
      next
        case nu: False
        with True notq cs "2.prems" obtain ch where h: "unescape e = Some ch"
          and r: "scan_string (acc @ [ch]) cs' = Some (s, rest)"
          by (auto split: option.splits)
        from "2.IH"(2) [OF notq True cs nu h r] have "length rest < length cs'" .
        with cs show ?thesis by simp
      qed
    next
      case nb: False
      with notq "2.prems" have c32: "\<not> (of_char c :: nat) < 32"
        and r: "scan_string (acc @ [c]) cs = Some (s, rest)"
        by (auto split: if_splits)
      from "2.IH"(3) [OF notq nb c32 r] show ?thesis by simp
    qed
  qed
qed

function tokenize :: "string \<Rightarrow> token list option" where
  "tokenize [] = Some []"
| "tokenize (c # cs) =
     (if is_ws c then tokenize cs
      else if c = CHR ''{'' then cons_token LBrace (tokenize cs)
      else if c = CHR ''}'' then cons_token RBrace (tokenize cs)
      else if c = CHR ''['' then cons_token LBracket (tokenize cs)
      else if c = CHR '']'' then cons_token RBracket (tokenize cs)
      else if c = CHR '':'' then cons_token Colon (tokenize cs)
      else if c = CHR '','' then cons_token Comma (tokenize cs)
      else if c = CHR 0x22 then
        (case scan_string [] cs of
           None \<Rightarrow> None
         | Some (s, rest) \<Rightarrow> cons_token (TString s) (tokenize rest))
      else if c = CHR ''t'' \<and> take 3 cs = ''rue'' then cons_token TTrue (tokenize (drop 3 cs))
      else if c = CHR ''f'' \<and> take 4 cs = ''alse'' then cons_token TFalse (tokenize (drop 4 cs))
      else if c = CHR ''n'' \<and> take 3 cs = ''ull'' then cons_token TNull (tokenize (drop 3 cs))
      else if is_number_char c then
        (let text = c # takeWhile is_number_char cs in
         if valid_number text
         then cons_token (TNumber text) (tokenize (dropWhile is_number_char cs))
         else None)
      else None)"
  by pat_completeness auto
termination
  by (relation "measure length")
     (auto dest: scan_string_shorter intro: le_imp_less_Suc length_dropWhile_le)

text \<open>
  The automaton over the tokens. A frame is an open array with its elements so far, an
  open object with its members so far, or an open object whose next member has its key
  and waits for the value.
\<close>

datatype frame =
    FArray "json list"
  | FObject "(string \<times> json) list"
  | FMember "(string \<times> json) list" string

datatype mode =
    MValue
  | MValueOrClose
  | MKeyOrClose
  | MKey
  | MColon
  | MAfter
  | MDone json

text \<open>A finished value goes to the frame that waits for it, or ends the text.\<close>

fun close_value :: "json \<Rightarrow> frame list \<Rightarrow> (frame list \<times> mode) option" where
  "close_value v [] = Some ([], MDone v)"
| "close_value v (FArray elems # st) = Some (FArray (elems @ [v]) # st, MAfter)"
| "close_value v (FMember ms k # st) = Some (FObject (AList.update k v ms) # st, MAfter)"
| "close_value v (FObject ms # st) = None"

fun open_value :: "token \<Rightarrow> frame list \<Rightarrow> (frame list \<times> mode) option" where
  "open_value LBracket st = Some (FArray [] # st, MValueOrClose)"
| "open_value LBrace st = Some (FObject [] # st, MKeyOrClose)"
| "open_value (TString s) st = close_value (JString s) st"
| "open_value (TNumber n) st = close_value (JNumber n) st"
| "open_value TTrue st = close_value (JBool True) st"
| "open_value TFalse st = close_value (JBool False) st"
| "open_value TNull st = close_value JNull st"
| "open_value _ st = None"

definition step :: "frame list \<times> mode \<Rightarrow> token \<Rightarrow> (frame list \<times> mode) option" where
  "step s t =
     (case snd s of
        MValue \<Rightarrow> open_value t (fst s)
      | MValueOrClose \<Rightarrow>
          (case (t, fst s) of
             (RBracket, FArray elems # st) \<Rightarrow> close_value (JArray elems) st
           | _ \<Rightarrow> open_value t (fst s))
      | MKeyOrClose \<Rightarrow>
          (case (t, fst s) of
             (RBrace, FObject ms # st) \<Rightarrow> close_value (JObject ms) st
           | (TString k, FObject ms # st) \<Rightarrow> Some (FMember ms k # st, MColon)
           | _ \<Rightarrow> None)
      | MKey \<Rightarrow>
          (case (t, fst s) of
             (TString k, FObject ms # st) \<Rightarrow> Some (FMember ms k # st, MColon)
           | _ \<Rightarrow> None)
      | MColon \<Rightarrow> (case t of Colon \<Rightarrow> Some (fst s, MValue) | _ \<Rightarrow> None)
      | MAfter \<Rightarrow>
          (case (t, fst s) of
             (Comma, FArray elems # st) \<Rightarrow> Some (FArray elems # st, MValue)
           | (RBracket, FArray elems # st) \<Rightarrow> close_value (JArray elems) st
           | (Comma, FObject ms # st) \<Rightarrow> Some (FObject ms # st, MKey)
           | (RBrace, FObject ms # st) \<Rightarrow> close_value (JObject ms) st
           | _ \<Rightarrow> None)
      | MDone v \<Rightarrow> None)"

fun run_tokens :: "frame list \<times> mode \<Rightarrow> token list \<Rightarrow> json option" where
  "run_tokens s [] = (case snd s of MDone v \<Rightarrow> Some v | _ \<Rightarrow> None)"
| "run_tokens s (t # ts) = (case step s t of None \<Rightarrow> None | Some s' \<Rightarrow> run_tokens s' ts)"

definition JSON_parse :: "string \<Rightarrow> js_error + json" where
  "JSON_parse text =
     (case tokenize text of
        None \<Rightarrow> Inl SyntaxError
      | Some ts \<Rightarrow>
          (case run_tokens ([], MValue) ts of
             None \<Rightarrow> Inl SyntaxError
           | Some v \<Rightarrow> Inr v))"

text \<open>
  \<^verbatim>\<open>body.type\<close> on the parsed value. Reading a property of \<^verbatim>\<open>null\<close> throws a
  \<^verbatim>\<open>TypeError\<close>; on an object it is the member of that name, \<^verbatim>\<open>undefined\<close>
  (here \<open>None\<close>) when there is none; a boolean, a number, a string and an array
  have no property \<^verbatim>\<open>type\<close>.
\<close>

definition get_type :: "json \<Rightarrow> js_error + json option" where
  "get_type b =
     (case b of
        JNull \<Rightarrow> Inl TypeError
      | JObject ms \<Rightarrow> Inr (map_of ms ''type'')
      | _ \<Rightarrow> Inr None)"

subsection \<open>The console, asynchronous calls and \<^verbatim>\<open>Promise.all\<close>\<close>

text \<open>
  A line of console output is the stream and the arguments of the call.
\<close>

datatype console_arg = AStr string | ANum nat | AJson json | AErr js_error

datatype console_line = ConsoleLog "console_arg list" | ConsoleError "console_arg list"

text \<open>
  A call of an \<^verbatim>\<open>async\<close> function that awaits at most one timer: the lines it writes
  before it first suspends (or finishes), the delay of the timer it awaits
  (\<open>None\<close> when it never suspends), the lines it writes once the timer has fired,
  and how its promise settles: \<open>Inl\<close> rejected, \<open>Inr\<close> fulfilled.
\<close>

record 'a task =
  console_sync :: "console_line list"
  timer_ms :: "nat option"
  console_resumed :: "console_line list"
  settled :: "js_error + 'a"

text \<open>
  A whole run, up to the moment its promise settles: the console lines in the order
  written, the milliseconds spent waiting for timers, and the outcome.
\<close>

record 'a run =
  console :: "console_line list"
  elapsed_ms :: nat
  outcome :: "js_error + 'a"

definition wake :: "'a task \<Rightarrow> nat" where
  "wake p = (case timer_ms p of None \<Rightarrow> 0 | Some d \<Rightarrow> d)"

text \<open>
  The tasks in the order they settle: first the ones that never suspended, then the
  suspended ones by their delay; tasks with equal delays keep the order they were
  started in (the sort is stable).
\<close>

definition settle_order :: "'a task list \<Rightarrow> 'a task list" where
  "settle_order ps = sort_key timer_ms ps"

text \<open>
  Walking the tasks in settle order: the first rejection ends the walk, and the tasks
  after it have not resumed yet.
\<close>

fun settle_all :: "'a task list \<Rightarrow> console_line list \<times> nat \<times> js_error option" where
  "settle_all [] = ([], 0, None)"
| "settle_all (p # ps) =
     (case settled p of
        Inl e \<Rightarrow> (console_resumed p, wake p, Some e)
      | Inr v \<Rightarrow>
          (case settle_all ps of
             (out, t, r) \<Rightarrow> (console_resumed p @ out, max (wake p) t, r)))"

fun fulfilled_values :: "'a task list \<Rightarrow> 'a list" where
  "fulfilled_values [] = []"
| "fulfilled_values (p # ps) =
     (case settled p of
        Inl e \<Rightarrow> fulfilled_values ps
      | Inr v \<Rightarrow> v # fulfilled_values ps)"

text \<open>
  \<^verbatim>\<open>await Promise.all(promises)\<close>: rejected with the reason of the first promise to
  reject, otherwise fulfilled, once every promise is, with the values in the order of
  the promises.
\<close>

definition Promise_all :: "'a task list \<Rightarrow> 'a list run" where
  "Promise_all ps =
     (case settle_all (settle_order ps) of
        (out, t, r) \<Rightarrow>
          \<lparr>console = out, elapsed_ms = t,
           outcome = (case r of Some e \<Rightarrow> Inl e | None \<Rightarrow> Inr (fulfilled_values ps))\<rparr>)"

subsection \<open>\<^verbatim>\<open>processRecord\<close>\<close>

text \<open>
  The \<^verbatim>\<open>catch (error)\<close> block: one \<^verbatim>\<open>console.error\<close> line and the failure result.
\<close>

definition catch_log :: "SQSRecord \<Rightarrow> js_error \<Rightarrow> console_line list" where
  "catch_log record e =
     [ConsoleError [AStr (''Error processing record '' @ SQSRecord.messageId record @ '':''),
                    AErr e]]"

definition catch_result :: "SQSRecord \<Rightarrow> js_error \<Rightarrow> ProcessingResult" where
  "catch_result record e =
     \<lparr>success = False, messageId = SQSRecord.messageId record, error = Some e\<rparr>"

text \<open>
  \<^verbatim>\<open>JSON.parse(record.body)\<close> stands before the \<^verbatim>\<open>try\<close>: what it throws rejects
  the promise. Inside the \<^verbatim>\<open>try\<close>, the first \<^verbatim>\<open>body.type\<close> may throw, then the three
  comparisons follow in the order of the source; the timeout branch awaits a timer of
  5000 ms before it throws. Everything thrown inside the \<^verbatim>\<open>try\<close> is caught.
\<close>

definition processRecord :: "SQSRecord \<Rightarrow> ProcessingResult task" where
  "processRecord record =
     (case JSON_parse (body record) of
        Inl e \<Rightarrow>
          \<lparr>console_sync = [], timer_ms = None, console_resumed = [], settled = Inl e\<rparr>
      | Inr parsed \<Rightarrow>
          (case get_type parsed of
             Inl e \<Rightarrow>
               \<lparr>console_sync = catch_log record e, timer_ms = None, console_resumed = [],
                settled = Inr (catch_result record e)\<rparr>
           | Inr ty \<Rightarrow>
               if ty = Some (JString ''business-error'') then
                 \<lparr>console_sync = catch_log record (BusinessLogicError ''Invalid business logic''),
                  timer_ms = None, console_resumed = [],
                  settled = Inr (catch_result record (BusinessLogicError ''Invalid business logic''))\<rparr>
               else if ty = Some (JString ''temporary-error'') then
                 \<lparr>console_sync = catch_log record (TemporaryError ''Temporary processing error''),
                  timer_ms = None, console_resumed = [],
                  settled = Inr (catch_result record (TemporaryError ''Temporary processing error''))\<rparr>
               else if ty = Some (JString ''timeout'') then
                 \<lparr>console_sync = [], timer_ms = Some 5000,
                  console_resumed = catch_log record (Error ''Operation timed out''),
                  settled = Inr (catch_result record (Error ''Operation timed out''))\<rparr>
               else
                 \<lparr>console_sync = [ConsoleLog [AStr ''Successfully processed record:'', AJson parsed]],
                  timer_ms = None, console_resumed = [],
                  settled = Inr \<lparr>success = True, messageId = SQSRecord.messageId record,
                                 error = None\<rparr>\<rparr>))"

subsection \<open>\<^verbatim>\<open>handler\<close>\<close>

text \<open>
  The callback of \<^verbatim>\<open>results.forEach\<close>, on the pair of \<^verbatim>\<open>batchItemFailures\<close> and the
  console lines written so far. \<^verbatim>\<open>push\<close> appends at the end.
  \<^verbatim>\<open>instanceof\<close> is false on a missing \<^verbatim>\<open>error\<close>.
\<close>

definition classify :: "ProcessingResult \<Rightarrow> string" where
  "classify result =
     (case error result of
        Some (BusinessLogicError m) \<Rightarrow>
          ''Business logic error for message '' @ messageId result @
          '' - will be sent to DLQ after max retries''
      | Some (TemporaryError m) \<Rightarrow>
          ''Temporary error for message '' @ messageId result @ '' - will retry''
      | _ \<Rightarrow> ''Unknown error for message '' @ messageId result @ '' - will retry'')"

definition forEach_body ::
  "SQSBatchItemFailure list \<times> console_line list \<Rightarrow> ProcessingResult \<Rightarrow>
   SQSBatchItemFailure list \<times> console_line list" where
  "forEach_body acc result =
     (if \<not> success result then
        (fst acc @ [\<lparr>itemIdentifier = messageId result\<rparr>],
         snd acc @ [ConsoleLog [AStr (classify result)]])
      else
        (fst acc,
         snd acc @ [ConsoleLog [AStr (''Successfully processed message '' @ messageId result)]]))"

text \<open>
  The handler: the first log line, the loop that starts \<^verbatim>\<open>processRecord\<close> on every
  record (each call runs up to its first suspension before the next one starts), the
  join, then \<^verbatim>\<open>forEach\<close> over the results. A rejection of the join is not caught, so
  it rejects the handler's own promise. \<^verbatim>\<open>context\<close> is not read.
\<close>

definition handler :: "SQSEvent \<Rightarrow> 'c \<Rightarrow> SQSBatchResponse run" where
  "handler event context =
     (let processingPromises = map processRecord (Records event);
          started = ConsoleLog [AStr ''Processing batch of:'', ANum (length (Records event))]
                    # concat (map console_sync processingPromises);
          joined = Promise_all processingPromises
      in case outcome joined of
           Inl e \<Rightarrow>
             \<lparr>console = started @ console joined, elapsed_ms = elapsed_ms joined,
              outcome = Inl e\<rparr>
         | Inr results \<Rightarrow>
             (case foldl forEach_body ([], []) results of
                (failures, logged) \<Rightarrow>
                  \<lparr>console = started @ console joined @ logged,
                   elapsed_ms = elapsed_ms joined,
                   outcome = Inr \<lparr>batchItemFailures = failures\<rparr>\<rparr>))"

subsection \<open>Notions of the specification\<close>

text \<open>
  The payload's \<open>type\<close> field, in the words of the specification: the member named
  \<open>type\<close> of a JSON object; any other JSON value has none.
\<close>

fun type_field :: "json \<Rightarrow> json option" where
  "type_field (JObject ms) = map_of ms ''type''"
| "type_field j = None"

text \<open>
  A message failed when \<^verbatim>\<open>processRecord\<close> fulfilled with \<open>success = False\<close>, and
  succeeded when it fulfilled with \<open>success = True\<close>.
\<close>

definition failed :: "SQSRecord \<Rightarrow> bool" where
  "failed record =
     (case settled (processRecord record) of Inl e \<Rightarrow> False | Inr result \<Rightarrow> \<not> success result)"

definition succeeded :: "SQSRecord \<Rightarrow> bool" where
  "succeeded record =
     (case settled (processRecord record) of Inl e \<Rightarrow> False | Inr result \<Rightarrow> success result)"

definition parses :: "SQSRecord \<Rightarrow> bool" where
  "parses record = (case JSON_parse (body record) of Inl e \<Rightarrow> False | Inr j \<Rightarrow> True)"

text \<open>The entries the handler reports for a list of records, in their order.\<close>

definition reported :: "SQSRecord list \<Rightarrow> SQSBatchItemFailure list" where
  "reported rs = map (\<lambda>r. \<lparr>itemIdentifier = SQSRecord.messageId r\<rparr>) (filter failed rs)"

text \<open>
  A sample message for the concrete cases: an identifier, a body and a receive count.
\<close>

definition message :: "string \<Rightarrow> string \<Rightarrow> string \<Rightarrow> SQSRecord" where
  "message ident text receives =
     \<lparr>SQSRecord.messageId = ident, receiptHandle = ''handle-'' @ receives, body = text,
      attributes = [(''ApproximateReceiveCount'', receives)], messageAttributes = [],
      md5OfBody = [], eventSource = ''aws:sqs'',
      eventSourceARN = ''arn:aws:sqs:us-east-1:000000000000:demo-queue'',
      awsRegion = ''us-east-1''\<rparr>"

text \<open>
  The batch of three messages of the specification, and the same batch delivered again
  (only the delivery metadata differs).
\<close>

definition sample_batch :: SQSEvent where
  \<open>sample_batch =
     \<lparr>Records = [message ''m1'' ''{"type":"ok"}'' ''1'',
                 message ''m2'' ''{"type":"business-error"}'' ''1'',
                 message ''m3'' ''{"type":"temporary-error"}'' ''1'']\<rparr>\<close>

definition redelivered_batch :: SQSEvent where
  \<open>redelivered_batch =
     \<lparr>Records = [message ''m1'' ''{"type":"ok"}'' ''2'',
                 message ''m2'' ''{"type":"business-error"}'' ''2'',
                 message ''m3'' ''{"type":"temporary-error"}'' ''2'']\<rparr>\<close>

text \<open>What the handler is to answer on \<open>sample_batch\<close>.\<close>

definition sample_response :: SQSBatchResponse where
  "sample_response =
     \<lparr>batchItemFailures = [\<lparr>itemIdentifier = ''m2''\<rparr>, \<lparr>itemIdentifier = ''m3''\<rparr>]\<rparr>"

section \<open>Properties\<close>

subsection \<open>\<^verbatim>\<open>JSON.parse\<close> and \<^verbatim>\<open>processRecord\<close>\<close>

lemma JSON_parse_error: "JSON_parse text = Inl e \<Longrightarrow> e = SyntaxError"
  by (auto simp: JSON_parse_def split: option.splits)

lemma get_type_cases:
  "get_type j = (if j = JNull then Inl TypeError else Inr (type_field j))"
  by (cases j) (simp_all add: get_type_def)

lemma processRecord_rejected:
  "JSON_parse (body record) = Inl e \<Longrightarrow>
   processRecord record =
     \<lparr>console_sync = [], timer_ms = None, console_resumed = [], settled = Inl e\<rparr>"
  by (simp add: processRecord_def)

lemma processRecord_null:
  "JSON_parse (body record) = Inr JNull \<Longrightarrow>
   processRecord record =
     \<lparr>console_sync = catch_log record TypeError, timer_ms = None, console_resumed = [],
      settled = Inr (catch_result record TypeError)\<rparr>"
  by (simp add: processRecord_def get_type_cases)

lemma processRecord_business:
  "JSON_parse (body record) = Inr j \<Longrightarrow> j \<noteq> JNull \<Longrightarrow>
   type_field j = Some (JString ''business-error'') \<Longrightarrow>
   processRecord record =
     \<lparr>console_sync = catch_log record (BusinessLogicError ''Invalid business logic''),
      timer_ms = None, console_resumed = [],
      settled = Inr (catch_result record (BusinessLogicError ''Invalid business logic''))\<rparr>"
  by (simp add: processRecord_def get_type_cases)

lemma processRecord_temporary:
  "JSON_parse (body record) = Inr j \<Longrightarrow> j \<noteq> JNull \<Longrightarrow>
   type_field j = Some (JString ''temporary-error'') \<Longrightarrow>
   processRecord record =
     \<lparr>console_sync = catch_log record (TemporaryError ''Temporary processing error''),
      timer_ms = None, console_resumed = [],
      settled = Inr (catch_result record (TemporaryError ''Temporary processing error''))\<rparr>"
  by (simp add: processRecord_def get_type_cases)

lemma processRecord_timeout:
  "JSON_parse (body record) = Inr j \<Longrightarrow> j \<noteq> JNull \<Longrightarrow>
   type_field j = Some (JString ''timeout'') \<Longrightarrow>
   processRecord record =
     \<lparr>console_sync = [], timer_ms = Some 5000,
      console_resumed = catch_log record (Error ''Operation timed out''),
      settled = Inr (catch_result record (Error ''Operation timed out''))\<rparr>"
  by (simp add: processRecord_def get_type_cases)

lemma processRecord_other:
  "JSON_parse (body record) = Inr j \<Longrightarrow> j \<noteq> JNull \<Longrightarrow>
   type_field j \<noteq> Some (JString ''business-error'') \<Longrightarrow>
   type_field j \<noteq> Some (JString ''temporary-error'') \<Longrightarrow>
   type_field j \<noteq> Some (JString ''timeout'') \<Longrightarrow>
   processRecord record =
     \<lparr>console_sync = [ConsoleLog [AStr ''Successfully processed record:'', AJson j]],
      timer_ms = None, console_resumed = [],
      settled = Inr \<lparr>success = True, messageId = SQSRecord.messageId record, error = None\<rparr>\<rparr>"
  by (simp add: processRecord_def get_type_cases)

lemma processRecord_fulfilled_iff:
  "(\<exists>result. settled (processRecord record) = Inr result) \<longleftrightarrow> parses record"
  by (auto simp: processRecord_def parses_def split: sum.splits)

lemma processRecord_depends:
  assumes "SQSRecord.messageId r = SQSRecord.messageId r'" and "body r = body r'"
  shows "processRecord r = processRecord r'"
proof -
  have "catch_log r = catch_log r'" and "catch_result r = catch_result r'"
    using assms by (simp_all add: fun_eq_iff catch_log_def catch_result_def)
  with assms show ?thesis
    by (simp add: processRecord_def split: sum.splits)
qed

lemma processRecord_wake: "wake (processRecord record) = 0 \<or> wake (processRecord record) = 5000"
  by (auto simp: processRecord_def wake_def split: sum.splits)

lemma processRecord_result:
  "settled (processRecord record) = Inr result \<Longrightarrow>
   messageId result = SQSRecord.messageId record \<and> (error result \<noteq> None \<longleftrightarrow> \<not> success result)"
  by (auto simp: processRecord_def catch_result_def split: sum.splits if_splits)

subsection \<open>\<^verbatim>\<open>Promise.all\<close>\<close>

lemma settle_all_none:
  "snd (snd (settle_all ps)) = None \<longleftrightarrow> (\<forall>p\<in>set ps. \<exists>v. settled p = Inr v)"
  by (induction ps) (auto split: sum.splits prod.splits)

lemma settle_all_some:
  "snd (snd (settle_all ps)) = Some e \<Longrightarrow> \<exists>p\<in>set ps. settled p = Inl e"
  by (induction ps) (auto split: sum.splits prod.splits)

lemma set_settle_order: "set (settle_order ps) = set ps"
  by (simp add: settle_order_def)

lemma fulfilled_values_map:
  "\<forall>p\<in>set ps. settled p = Inr (f p) \<Longrightarrow> fulfilled_values ps = map f ps"
  by (induction ps) auto

lemma Promise_all_fulfilled:
  assumes "\<forall>p\<in>set ps. settled p = Inr (f p)"
  shows "outcome (Promise_all ps) = Inr (map f ps)"
proof -
  obtain out t r where sa: "settle_all (settle_order ps) = (out, t, r)"
    by (cases "settle_all (settle_order ps)") auto
  from assms have "\<forall>p\<in>set (settle_order ps). \<exists>v. settled p = Inr v"
    by (simp add: set_settle_order)
  then have "snd (snd (settle_all (settle_order ps))) = None"
    using settle_all_none [of "settle_order ps"] by blast
  with sa have "r = None" by simp
  with sa fulfilled_values_map [OF assms] show ?thesis
    by (simp add: Promise_all_def)
qed

lemma Promise_all_rejected:
  assumes "p \<in> set ps" and "settled p = Inl e"
  shows "\<exists>e' p'. p' \<in> set ps \<and> settled p' = Inl e' \<and> outcome (Promise_all ps) = Inl e'"
proof -
  obtain out t r where sa: "settle_all (settle_order ps) = (out, t, r)"
    by (cases "settle_all (settle_order ps)") auto
  from assms have "\<not> (\<forall>p\<in>set (settle_order ps). \<exists>v. settled p = Inr v)"
    unfolding set_settle_order by fastforce
  then have "snd (snd (settle_all (settle_order ps))) \<noteq> None"
    using settle_all_none [of "settle_order ps"] by blast
  with sa obtain e' where r: "r = Some e'"
    by auto
  with sa have "snd (snd (settle_all (settle_order ps))) = Some e'"
    by simp
  from settle_all_some [OF this] obtain p' where "p' \<in> set ps" and "settled p' = Inl e'"
    by (auto simp: set_settle_order)
  with sa r show ?thesis
    by (auto simp: Promise_all_def)
qed

lemma foldl_forEach_body:
  "fst (foldl forEach_body acc results) =
   fst acc @ map (\<lambda>r. \<lparr>itemIdentifier = messageId r\<rparr>) (filter (\<lambda>r. \<not> success r) results)"
  by (induction results arbitrary: acc) (simp_all add: forEach_body_def)


lemma settle_all_elapsed_le:
  "\<forall>p\<in>set ps. wake p \<le> n \<Longrightarrow> fst (snd (settle_all ps)) \<le> n"
  by (induction ps) (auto split: sum.splits prod.splits)

lemma settle_all_elapsed_ge:
  "\<forall>p\<in>set ps. \<exists>v. settled p = Inr v \<Longrightarrow> p \<in> set ps \<Longrightarrow>
   wake p \<le> fst (snd (settle_all ps))"
  by (induction ps) (auto split: sum.splits prod.splits)

lemma Promise_all_elapsed:
  assumes "\<forall>p\<in>set ps. \<exists>v. settled p = Inr v" and "\<forall>p\<in>set ps. wake p \<le> n"
    and "p \<in> set ps" and "wake p = n"
  shows "elapsed_ms (Promise_all ps) = n"
proof -
  have "elapsed_ms (Promise_all ps) = fst (snd (settle_all (settle_order ps)))"
    by (simp add: Promise_all_def split: prod.splits)
  moreover have "fst (snd (settle_all (settle_order ps))) \<le> n"
    using assms(2) by (intro settle_all_elapsed_le) (simp add: set_settle_order)
  moreover have "n \<le> fst (snd (settle_all (settle_order ps)))"
    using settle_all_elapsed_ge [of "settle_order ps" p] assms(1,3,4)
    by (simp add: set_settle_order)
  ultimately show ?thesis by simp
qed

subsection \<open>\<^verbatim>\<open>handler\<close>\<close>

lemma processRecord_rejected_parse:
  "settled (processRecord record) = Inl e \<Longrightarrow> JSON_parse (body record) = Inl e"
  by (auto simp: processRecord_def split: sum.splits if_splits)

lemma reported_results:
  assumes "\<forall>r\<in>set rs. parses r"
  shows "map (\<lambda>x. \<lparr>itemIdentifier = messageId x\<rparr>)
           (filter (\<lambda>x. \<not> success x) (map (\<lambda>r. projr (settled (processRecord r))) rs)) =
         reported rs"
  using assms
proof (induction rs)
  case Nil
  then show ?case by (simp add: reported_def)
next
  case (Cons r rs)
  from Cons.prems obtain result where res: "settled (processRecord r) = Inr result"
    using processRecord_fulfilled_iff [of r] by auto
  from processRecord_result [OF res] have "messageId result = SQSRecord.messageId r" by simp
  with res Cons show ?case
    by (simp add: reported_def failed_def)
qed

lemma handler_fulfilled:
  assumes "\<forall>r\<in>set (Records event). parses r"
  shows "outcome (handler event context) = Inr \<lparr>batchItemFailures = reported (Records event)\<rparr>"
proof -
  let ?ps = "map processRecord (Records event)"
  have "settled (processRecord r) = Inr (projr (settled (processRecord r)))"
    if "r \<in> set (Records event)" for r
  proof -
    from that assms have "parses r" by simp
    then obtain result where "settled (processRecord r) = Inr result"
      using processRecord_fulfilled_iff [of r] by auto
    then show ?thesis by simp
  qed
  then have "\<forall>p\<in>set ?ps. settled p = Inr (projr (settled p))"
    by auto
  from Promise_all_fulfilled [OF this]
  have joined: "outcome (Promise_all ?ps) =
      Inr (map (\<lambda>r. projr (settled (processRecord r))) (Records event))"
    by (simp add: comp_def)
  obtain failures logged where
    fl: "foldl forEach_body ([], []) (map (\<lambda>r. projr (settled (processRecord r))) (Records event))
         = (failures, logged)"
    by (cases "foldl forEach_body ([], []) (map (\<lambda>r. projr (settled (processRecord r))) (Records event))")
  from foldl_forEach_body [of "([], [])" "map (\<lambda>r. projr (settled (processRecord r))) (Records event)"]
    fl reported_results [OF assms]
  have "failures = reported (Records event)"
    by simp
  with joined fl show ?thesis
    by (simp add: handler_def Let_def)
qed

lemma handler_rejected:
  assumes "r \<in> set (Records event)" and "\<not> parses r"
  shows "outcome (handler event context) = Inl SyntaxError"
proof -
  let ?ps = "map processRecord (Records event)"
  from assms(2) obtain e where "JSON_parse (body r) = Inl e"
    by (auto simp: parses_def split: sum.splits)
  then have "settled (processRecord r) = Inl e"
    by (simp add: processRecord_rejected)
  moreover from assms(1) have "processRecord r \<in> set ?ps"
    by simp
  ultimately obtain e' p' where p': "p' \<in> set ?ps" "settled p' = Inl e'"
    and out: "outcome (Promise_all ?ps) = Inl e'"
    using Promise_all_rejected by blast
  from p' obtain r' where "settled (processRecord r') = Inl e'"
    by auto
  then have "e' = SyntaxError"
    using processRecord_rejected_parse JSON_parse_error by blast
  with out show ?thesis
    by (simp add: handler_def Let_def)
qed

lemma handler_fulfilled_iff:
  "(\<exists>response. outcome (handler event context) = Inr response) \<longleftrightarrow>
   (\<forall>r\<in>set (Records event). parses r)"
  using handler_fulfilled [of event "context"] handler_rejected [of _ event "context"]
  by (metis sum.distinct(1))

lemma handler_elapsed:
  "elapsed_ms (handler event context) = elapsed_ms (Promise_all (map processRecord (Records event)))"
  by (simp add: handler_def Let_def split: sum.splits prod.splits)

lemma handler_depends:
  assumes "map (\<lambda>r. (SQSRecord.messageId r, body r)) (Records event) =
           map (\<lambda>r. (SQSRecord.messageId r, body r)) (Records event')"
  shows "handler event context = handler event' context'"
proof -
  define g where "g = (\<lambda>k. processRecord
    \<lparr>SQSRecord.messageId = fst k, receiptHandle = [], body = snd k, attributes = [],
     messageAttributes = [], md5OfBody = [], eventSource = [], eventSourceARN = [],
     awsRegion = []\<rparr>)"
  have g: "processRecord r = g (SQSRecord.messageId r, body r)" for r
    unfolding g_def by (rule processRecord_depends) simp_all
  have m: "map processRecord rs = map g (map (\<lambda>r. (SQSRecord.messageId r, body r)) rs)" for rs
    by (induction rs) (simp_all add: g [symmetric])
  have "map processRecord (Records event) =
        map g (map (\<lambda>r. (SQSRecord.messageId r, body r)) (Records event))"
    by (rule m)
  also have "\<dots> = map g (map (\<lambda>r. (SQSRecord.messageId r, body r)) (Records event'))"
    by (simp only: assms)
  also have "\<dots> = map processRecord (Records event')"
    by (rule m [symmetric])
  finally have "map processRecord (Records event) = map processRecord (Records event')" .
  moreover have "length (Records event) = length (Records event')"
    using assms by (rule map_eq_imp_length_eq)
  ultimately show ?thesis
    by (simp add: handler_def)
qed

subsection \<open>Concrete bodies\<close>

lemma parse_ok: \<open>JSON_parse ''{"type":"ok"}'' = Inr (JObject [(''type'', JString ''ok'')])\<close>
  by code_simp

lemma parse_business:
  \<open>JSON_parse ''{"type":"business-error"}'' = Inr (JObject [(''type'', JString ''business-error'')])\<close>
  by code_simp

lemma parse_temporary:
  \<open>JSON_parse ''{"type":"temporary-error"}'' = Inr (JObject [(''type'', JString ''temporary-error'')])\<close>
  by code_simp

lemma parse_timeout:
  \<open>JSON_parse ''{"type":"timeout"}'' = Inr (JObject [(''type'', JString ''timeout'')])\<close>
  by code_simp

lemma parse_null: "JSON_parse ''null'' = Inr JNull"
  by code_simp

lemma parse_not_json: "JSON_parse ''not json'' = Inl SyntaxError"
  by code_simp

lemma message_fields [simp]:
  "SQSRecord.messageId (message i b n) = i" "body (message i b n) = b"
  by (simp_all add: message_def)

lemma parses_bodies:
  \<open>body r = ''{"type":"ok"}'' \<Longrightarrow> parses r\<close>
  \<open>body r = ''{"type":"business-error"}'' \<Longrightarrow> parses r\<close>
  \<open>body r = ''{"type":"temporary-error"}'' \<Longrightarrow> parses r\<close>
  \<open>body r = ''{"type":"timeout"}'' \<Longrightarrow> parses r\<close>
  \<open>body r = ''null'' \<Longrightarrow> parses r\<close>
  by (simp_all add: parses_def parse_ok parse_business parse_temporary parse_timeout parse_null)

lemma failed_bodies:
  \<open>body r = ''{"type":"ok"}'' \<Longrightarrow> \<not> failed r\<close>
  \<open>body r = ''{"type":"business-error"}'' \<Longrightarrow> failed r\<close>
  \<open>body r = ''{"type":"temporary-error"}'' \<Longrightarrow> failed r\<close>
  \<open>body r = ''{"type":"timeout"}'' \<Longrightarrow> failed r\<close>
  \<open>body r = ''null'' \<Longrightarrow> failed r\<close>
  by (simp_all add: failed_def processRecord_def get_type_def catch_result_def
      parse_ok parse_business parse_temporary parse_timeout parse_null)

lemma not_parses_not_json: "body r = ''not json'' \<Longrightarrow> \<not> parses r"
  by (simp add: parses_def parse_not_json)

subsection \<open>The claims\<close>

text \<open>
  C1. The specification asks that \<^verbatim>\<open>processRecord\<close> never rejects, also on a body that
  is not JSON, and that the handler therefore never fails as a whole. The code parses the
  body before the \<^verbatim>\<open>try\<close>: on the body \<^verbatim>\<open>not json\<close> the promise of
  \<^verbatim>\<open>processRecord\<close> is rejected with the \<^verbatim>\<open>SyntaxError\<close>, and a batch that holds this
  message next to a good one rejects as a whole, with no \<^verbatim>\<open>batchItemFailures\<close>.
\<close>

theorem C1_unparsable_body_rejects:
  \<open>settled (processRecord (message ''m2'' ''not json'' ''1'')) = Inl SyntaxError \<and>
   outcome (handler \<lparr>Records = [message ''m1'' ''{"type":"ok"}'' ''1'',
                                 message ''m2'' ''not json'' ''1'']\<rparr> ()) = Inl SyntaxError\<close>
proof -
  have "settled (processRecord (message ''m2'' ''not json'' ''1'')) = Inl SyntaxError"
    by (simp add: processRecord_rejected parse_not_json)
  moreover have "\<not> parses (message ''m2'' ''not json'' ''1'')"
    by (simp add: not_parses_not_json)
  then have \<open>outcome (handler \<lparr>Records = [message ''m1'' ''{"type":"ok"}'' ''1'',
                                 message ''m2'' ''not json'' ''1'']\<rparr> ()) = Inl SyntaxError\<close>
    by (intro handler_rejected [where r = "message ''m2'' ''not json'' ''1''"]) simp_all
  ultimately show ?thesis by simp
qed

lemma succeeded_iff_not_failed: "parses r \<Longrightarrow> succeeded r \<longleftrightarrow> \<not> failed r"
  using processRecord_fulfilled_iff [of r]
  by (auto simp: succeeded_def failed_def)

lemma itemIdentifier_reported:
  "map itemIdentifier (reported rs) = map SQSRecord.messageId (filter failed rs)"
  by (simp add: reported_def comp_def)

lemma handler_returns:
  assumes "outcome (handler event context) = Inr response"
  shows "(\<forall>r\<in>set (Records event). parses r) \<and>
         batchItemFailures response = reported (Records event)"
proof -
  from assms have all: "\<forall>r\<in>set (Records event). parses r"
    using handler_fulfilled_iff [of event "context"] by blast
  from handler_fulfilled [OF all, of "context"] assms
  have "response = \<lparr>batchItemFailures = reported (Records event)\<rparr>"
    by simp
  with all show ?thesis by simp
qed

lemma filter_keeps_order:
  assumes "i < j" and "j < length xs" and "P (xs ! i)" and "P (xs ! j)"
  shows "\<exists>p q. p < q \<and> q < length (filter P xs) \<and>
                filter P xs ! p = xs ! i \<and> filter P xs ! q = xs ! j"
proof -
  from assms have i: "i < length xs" by simp
  let ?ys = "drop (Suc i) xs"
  let ?k = "j - Suc i"
  from assms have k: "?k < length ?ys" by simp
  from assms have yk: "?ys ! ?k = xs ! j" by simp
  have xs: "xs = take i xs @ xs ! i # ?ys"
    by (rule id_take_nth_drop [OF i])
  have ys: "?ys = take ?k ?ys @ xs ! j # drop (Suc ?k) ?ys"
    using id_take_nth_drop [OF k] yk by simp
  let ?A = "filter P (take i xs)"
  let ?B = "filter P (take ?k ?ys)"
  let ?C = "filter P (drop (Suc ?k) ?ys)"
  have "filter P xs = filter P (take i xs @ xs ! i # take ?k ?ys @ xs ! j # drop (Suc ?k) ?ys)"
    using xs ys by metis
  then have f: "filter P xs = ?A @ xs ! i # ?B @ xs ! j # ?C"
    using assms(3,4) by simp
  have "filter P xs ! length ?A = xs ! i"
    by (subst f) (rule nth_append_length)
  moreover have "filter P xs ! (length ?A + Suc (length ?B)) = xs ! j"
    by (subst f) (simp add: nth_append)
  moreover have "length ?A + Suc (length ?B) < length (filter P xs)"
    by (subst f) simp
  ultimately show ?thesis
    by (intro exI [of _ "length ?A"] exI [of _ "length ?A + Suc (length ?B)"]) simp
qed

text \<open>
  C2. For a batch whose message identifiers are distinct, the \<^verbatim>\<open>batchItemFailures\<close> the
  handler returns hold only identifiers of the batch, hold no identifier twice, hold exactly
  the identifiers of the messages that failed, and the identifiers of the batch that are
  not in the list are exactly those of the messages that succeeded.
\<close>

theorem C2_failures_partition_batch:
  assumes "distinct (map SQSRecord.messageId (Records event))"
    and "outcome (handler event context) = Inr response"
  shows "set (map itemIdentifier (batchItemFailures response))
           \<subseteq> set (map SQSRecord.messageId (Records event)) \<and>
         distinct (map itemIdentifier (batchItemFailures response)) \<and>
         set (map itemIdentifier (batchItemFailures response))
           = SQSRecord.messageId ` {r \<in> set (Records event). failed r} \<and>
         set (map SQSRecord.messageId (Records event))
             - set (map itemIdentifier (batchItemFailures response))
           = SQSRecord.messageId ` {r \<in> set (Records event). succeeded r}"
proof -
  let ?rs = "Records event"
  from handler_returns [OF assms(2)]
  have all: "\<forall>r\<in>set ?rs. parses r"
    and ids: "map itemIdentifier (batchItemFailures response)
              = map SQSRecord.messageId (filter failed ?rs)"
    by (simp_all add: itemIdentifier_reported)
  from assms(1) have inj: "inj_on SQSRecord.messageId (set ?rs)"
    by (simp add: distinct_map)
  have sub: "set (map SQSRecord.messageId (filter failed ?rs)) \<subseteq> set (map SQSRecord.messageId ?rs)"
    by auto
  have dist: "distinct (map SQSRecord.messageId (filter failed ?rs))"
    using assms(1) by (rule distinct_map_filter)
  have fail: "set (map SQSRecord.messageId (filter failed ?rs))
              = SQSRecord.messageId ` {r \<in> set ?rs. failed r}"
    by auto
  have "SQSRecord.messageId ` set ?rs - SQSRecord.messageId ` {r \<in> set ?rs. failed r}
        = SQSRecord.messageId ` (set ?rs - {r \<in> set ?rs. failed r})"
    by (rule inj_on_image_set_diff [OF inj, symmetric]) auto
  also have "set ?rs - {r \<in> set ?rs. failed r} = {r \<in> set ?rs. succeeded r}"
    using all succeeded_iff_not_failed by auto
  finally have compl: "set (map SQSRecord.messageId ?rs)
        - set (map SQSRecord.messageId (filter failed ?rs))
        = SQSRecord.messageId ` {r \<in> set ?rs. succeeded r}"
    by simp
  show ?thesis
    unfolding ids using sub dist fail compl by (intro conjI)
qed


lemma sample_batch_outcome:
  "outcome (handler sample_batch context) = Inr sample_response"
  by (subst handler_fulfilled)
     (simp_all add: sample_batch_def sample_response_def parses_bodies reported_def failed_bodies)

theorem C2_failures_partition_batch_witness:
  "distinct (map SQSRecord.messageId (Records sample_batch)) \<and>
   outcome (handler sample_batch ()) = Inr sample_response \<and>
   set (map itemIdentifier (batchItemFailures sample_response))
     \<subseteq> set (map SQSRecord.messageId (Records sample_batch)) \<and>
   distinct (map itemIdentifier (batchItemFailures sample_response)) \<and>
   set (map itemIdentifier (batchItemFailures sample_response))
     = SQSRecord.messageId ` {r \<in> set (Records sample_batch). failed r} \<and>
   set (map SQSRecord.messageId (Records sample_batch))
       - set (map itemIdentifier (batchItemFailures sample_response))
     = SQSRecord.messageId ` {r \<in> set (Records sample_batch). succeeded r}"
proof -
  have d: "distinct (map SQSRecord.messageId (Records sample_batch))"
    by (simp add: sample_batch_def)
  have h: "outcome (handler sample_batch ()) = Inr sample_response"
    by (rule sample_batch_outcome)
  from C2_failures_partition_batch [OF d h] d h show ?thesis
    by (intro conjI) (elim conjE, assumption)+
qed

lemma type_field_not_null: "type_field parsed = Some v \<Longrightarrow> parsed \<noteq> JNull"
  by auto

text \<open>
  C3, as the specification has it: every payload that parses and whose \<open>type\<close> is none
  of the three names succeeds. The payload \<^verbatim>\<open>null\<close> parses and has no \<open>type\<close>, but
  reading \<^verbatim>\<open>body.type\<close> throws inside the \<^verbatim>\<open>try\<close>, and the result is a failure.
\<close>

theorem C3_null_payload_fails:
  "JSON_parse (body (message ''m1'' ''null'' ''1'')) = Inr JNull \<and>
   type_field JNull = None \<and>
   settled (processRecord (message ''m1'' ''null'' ''1'')) =
     Inr \<lparr>success = False, messageId = ''m1'', error = Some TypeError\<rparr>"
  by (simp add: parse_null processRecord_null catch_result_def)

text \<open>
  C3, amended. For a record whose body parses: the payload \<^verbatim>\<open>null\<close> gives a failure
  with a \<^verbatim>\<open>TypeError\<close>; otherwise the \<open>type\<close> field \<^verbatim>\<open>business-error\<close> gives a
  failure with a \<^verbatim>\<open>BusinessLogicError\<close>, \<^verbatim>\<open>temporary-error\<close> a failure with a
  \<^verbatim>\<open>TemporaryError\<close>, \<^verbatim>\<open>timeout\<close> a failure with a plain \<^verbatim>\<open>Error\<close> after a timer
  of 5000 ms, and every other payload a success. Only the timeout branch waits.
\<close>

theorem C3_outcome_by_type:
  assumes "JSON_parse (body record) = Inr parsed"
  shows "settled (processRecord record) = Inr
           (if parsed = JNull then
              \<lparr>success = False, messageId = SQSRecord.messageId record, error = Some TypeError\<rparr>
            else if type_field parsed = Some (JString ''business-error'') then
              \<lparr>success = False, messageId = SQSRecord.messageId record,
               error = Some (BusinessLogicError ''Invalid business logic'')\<rparr>
            else if type_field parsed = Some (JString ''temporary-error'') then
              \<lparr>success = False, messageId = SQSRecord.messageId record,
               error = Some (TemporaryError ''Temporary processing error'')\<rparr>
            else if type_field parsed = Some (JString ''timeout'') then
              \<lparr>success = False, messageId = SQSRecord.messageId record,
               error = Some (Error ''Operation timed out'')\<rparr>
            else
              \<lparr>success = True, messageId = SQSRecord.messageId record, error = None\<rparr>) \<and>
         timer_ms (processRecord record) =
           (if parsed \<noteq> JNull \<and> type_field parsed = Some (JString ''timeout'')
            then Some 5000 else None)"
proof (cases "parsed = JNull")
  case True
  with assms processRecord_null [of "record"] show ?thesis
    by (simp add: catch_result_def)
next
  case notnull: False
  consider (business) "type_field parsed = Some (JString ''business-error'')"
    | (temporary) "type_field parsed = Some (JString ''temporary-error'')"
    | (timeout) "type_field parsed = Some (JString ''timeout'')"
    | (other) "type_field parsed \<noteq> Some (JString ''business-error'')"
        "type_field parsed \<noteq> Some (JString ''temporary-error'')"
        "type_field parsed \<noteq> Some (JString ''timeout'')"
    by blast
  then show ?thesis
  proof cases
    case business
    with notnull processRecord_business [OF assms notnull] show ?thesis
      by (simp add: catch_result_def)
  next
    case temporary
    with notnull processRecord_temporary [OF assms notnull] show ?thesis
      by (simp add: catch_result_def)
  next
    case timeout
    with notnull processRecord_timeout [OF assms notnull] show ?thesis
      by (simp add: catch_result_def)
  next
    case other
    with notnull processRecord_other [OF assms notnull] show ?thesis
      by simp
  qed
qed

theorem C3_outcome_by_type_witness:
  \<open>JSON_parse (body (message ''m2'' ''{"type":"business-error"}'' ''1''))
     = Inr (JObject [(''type'', JString ''business-error'')]) \<and>
   settled (processRecord (message ''m2'' ''{"type":"business-error"}'' ''1'')) =
     Inr \<lparr>success = False, messageId = ''m2'',
          error = Some (BusinessLogicError ''Invalid business logic'')\<rparr> \<and>
   timer_ms (processRecord (message ''m2'' ''{"type":"business-error"}'' ''1'')) = None \<and>
   JSON_parse (body (message ''m4'' ''{"type":"timeout"}'' ''1''))
     = Inr (JObject [(''type'', JString ''timeout'')]) \<and>
   settled (processRecord (message ''m4'' ''{"type":"timeout"}'' ''1'')) =
     Inr \<lparr>success = False, messageId = ''m4'', error = Some (Error ''Operation timed out'')\<rparr> \<and>
   timer_ms (processRecord (message ''m4'' ''{"type":"timeout"}'' ''1'')) = Some 5000 \<and>
   JSON_parse (body (message ''m1'' ''{"type":"ok"}'' ''1''))
     = Inr (JObject [(''type'', JString ''ok'')]) \<and>
   settled (processRecord (message ''m1'' ''{"type":"ok"}'' ''1'')) =
     Inr \<lparr>success = True, messageId = ''m1'', error = None\<rparr>\<close>
proof -
  have b: \<open>JSON_parse (body (message ''m2'' ''{"type":"business-error"}'' ''1''))
     = Inr (JObject [(''type'', JString ''business-error'')])\<close>
    by (simp add: parse_business)
  have t: \<open>JSON_parse (body (message ''m4'' ''{"type":"timeout"}'' ''1''))
     = Inr (JObject [(''type'', JString ''timeout'')])\<close>
    by (simp add: parse_timeout)
  have k: \<open>JSON_parse (body (message ''m1'' ''{"type":"ok"}'' ''1''))
     = Inr (JObject [(''type'', JString ''ok'')])\<close>
    by (simp add: parse_ok)
  from C3_outcome_by_type [OF b] C3_outcome_by_type [OF t] C3_outcome_by_type [OF k] b t k
  show ?thesis
    by simp
qed

text \<open>
  C4. On a batch of exactly three messages with the bodies \<^verbatim>\<open>{"type":"ok"}\<close>,
  \<^verbatim>\<open>{"type":"business-error"}\<close> and \<^verbatim>\<open>{"type":"temporary-error"}\<close>, in this order, the
  handler returns exactly two entries, the identifiers of the second and of the third
  message; the identifier of the first message, being different from theirs, is not
  in the list.
\<close>

theorem C4_three_message_batch:
  assumes \<open>body r1 = ''{"type":"ok"}''\<close>
    and \<open>body r2 = ''{"type":"business-error"}''\<close>
    and \<open>body r3 = ''{"type":"temporary-error"}''\<close>
  shows "outcome (handler \<lparr>Records = [r1, r2, r3]\<rparr> context) =
           Inr \<lparr>batchItemFailures = [\<lparr>itemIdentifier = SQSRecord.messageId r2\<rparr>,
                                     \<lparr>itemIdentifier = SQSRecord.messageId r3\<rparr>]\<rparr> \<and>
         (SQSRecord.messageId r1 \<noteq> SQSRecord.messageId r2 \<and>
          SQSRecord.messageId r1 \<noteq> SQSRecord.messageId r3 \<longrightarrow>
          (\<forall>response. outcome (handler \<lparr>Records = [r1, r2, r3]\<rparr> context) = Inr response \<longrightarrow>
             length (batchItemFailures response) = 2 \<and>
             SQSRecord.messageId r1 \<notin> itemIdentifier ` set (batchItemFailures response)))"
proof -
  have "\<forall>r\<in>set (Records \<lparr>Records = [r1, r2, r3]\<rparr>). parses r"
    using assms by (simp add: parses_bodies)
  from handler_fulfilled [OF this, of "context"] assms
  have "outcome (handler \<lparr>Records = [r1, r2, r3]\<rparr> context) =
           Inr \<lparr>batchItemFailures = [\<lparr>itemIdentifier = SQSRecord.messageId r2\<rparr>,
                                     \<lparr>itemIdentifier = SQSRecord.messageId r3\<rparr>]\<rparr>"
    by (simp add: reported_def failed_bodies)
  then show ?thesis
    by auto
qed

theorem C4_three_message_batch_witness:
  \<open>body (message ''m1'' ''{"type":"ok"}'' ''1'') = ''{"type":"ok"}'' \<and>
   body (message ''m2'' ''{"type":"business-error"}'' ''1'') = ''{"type":"business-error"}'' \<and>
   body (message ''m3'' ''{"type":"temporary-error"}'' ''1'') = ''{"type":"temporary-error"}'' \<and>
   ''m1'' \<noteq> ''m2'' \<and> ''m1'' \<noteq> ''m3'' \<and>
   outcome (handler sample_batch ()) = Inr sample_response \<and>
   length (batchItemFailures sample_response) = 2 \<and>
   ''m1'' \<notin> itemIdentifier ` set (batchItemFailures sample_response)\<close>
proof -
  have b1: \<open>body (message ''m1'' ''{"type":"ok"}'' ''1'') = ''{"type":"ok"}''\<close>
    and b2: \<open>body (message ''m2'' ''{"type":"business-error"}'' ''1'') = ''{"type":"business-error"}''\<close>
    and b3: \<open>body (message ''m3'' ''{"type":"temporary-error"}'' ''1'') = ''{"type":"temporary-error"}''\<close>
    by simp_all
  from C4_three_message_batch [OF b1 b2 b3, of "()"] show ?thesis
    by (simp add: sample_batch_def sample_response_def)
qed

text \<open>
  C5. On the empty batch the handler fulfils, with an empty \<^verbatim>\<open>batchItemFailures\<close>; it
  writes its first log line only and waits for nothing.
\<close>

theorem C5_empty_batch:
  "handler \<lparr>Records = []\<rparr> context =
     \<lparr>console = [ConsoleLog [AStr ''Processing batch of:'', ANum 0]], elapsed_ms = 0,
      outcome = Inr \<lparr>batchItemFailures = []\<rparr>\<rparr>"
  by (simp add: handler_def Promise_all_def settle_order_def)

lemma handler_single:
  assumes "settled p = Inr result" and "processRecord r = p"
  shows "handler \<lparr>Records = [r]\<rparr> context =
     (case forEach_body ([], []) result of
        (failures, logged) \<Rightarrow>
          \<lparr>console = ConsoleLog [AStr ''Processing batch of:'', ANum 1] # console_sync p
                       @ console_resumed p @ logged,
           elapsed_ms = wake p, outcome = Inr \<lparr>batchItemFailures = failures\<rparr>\<rparr>)"
  using assms
  by (simp add: handler_def Promise_all_def settle_order_def split: prod.splits)

text \<open>
  C6. A message whose payload has the \<open>type\<close> \<^verbatim>\<open>business-error\<close> gives the same
  failure, a \<^verbatim>\<open>BusinessLogicError\<close>, on every delivery: a redelivered record, with the same
  identifier and body and any other metadata, makes \<^verbatim>\<open>processRecord\<close> and the handler
  do exactly the same, and the handler's log line names it a business logic error.
  (The code reads nothing but the record, so two calls on equal inputs cannot differ;
  the model is a function for that reason.)
\<close>

theorem C6_business_error_redelivery:
  assumes "JSON_parse (body record) = Inr parsed"
    and "type_field parsed = Some (JString ''business-error'')"
    and "SQSRecord.messageId record' = SQSRecord.messageId record"
    and "body record' = body record"
  shows "processRecord record' = processRecord record \<and>
         settled (processRecord record) =
           Inr \<lparr>success = False, messageId = SQSRecord.messageId record,
                error = Some (BusinessLogicError ''Invalid business logic'')\<rparr> \<and>
         handler \<lparr>Records = [record']\<rparr> context' = handler \<lparr>Records = [record]\<rparr> context \<and>
         handler \<lparr>Records = [record]\<rparr> context =
           \<lparr>console =
              [ConsoleLog [AStr ''Processing batch of:'', ANum 1],
               ConsoleError [AStr (''Error processing record '' @ SQSRecord.messageId record @ '':''),
                             AErr (BusinessLogicError ''Invalid business logic'')],
               ConsoleLog [AStr (''Business logic error for message '' @ SQSRecord.messageId record
                                 @ '' - will be sent to DLQ after max retries'')]],
            elapsed_ms = 0,
            outcome = Inr \<lparr>batchItemFailures = [\<lparr>itemIdentifier = SQSRecord.messageId record\<rparr>]\<rparr>\<rparr>"
proof -
  from assms(2) have notnull: "parsed \<noteq> JNull"
    by (rule type_field_not_null)
  note p = processRecord_business [OF assms(1) notnull assms(2)]
  have same: "processRecord record' = processRecord record"
    using assms(3,4) by (rule processRecord_depends)
  have "handler \<lparr>Records = [record']\<rparr> context' = handler \<lparr>Records = [record]\<rparr> context"
    by (rule handler_depends) (simp add: assms(3,4))
  moreover have "handler \<lparr>Records = [record]\<rparr> context =
           \<lparr>console =
              [ConsoleLog [AStr ''Processing batch of:'', ANum 1],
               ConsoleError [AStr (''Error processing record '' @ SQSRecord.messageId record @ '':''),
                             AErr (BusinessLogicError ''Invalid business logic'')],
               ConsoleLog [AStr (''Business logic error for message '' @ SQSRecord.messageId record
                                 @ '' - will be sent to DLQ after max retries'')]],
            elapsed_ms = 0,
            outcome = Inr \<lparr>batchItemFailures = [\<lparr>itemIdentifier = SQSRecord.messageId record\<rparr>]\<rparr>\<rparr>"
    by (subst handler_single [where p = "processRecord record"
          and result = "catch_result record (BusinessLogicError ''Invalid business logic'')"])
       (simp_all add: p forEach_body_def classify_def catch_result_def catch_log_def wake_def)
  ultimately show ?thesis
    using same p by (simp add: catch_result_def)
qed

theorem C6_business_error_redelivery_witness:
  \<open>JSON_parse (body (message ''m2'' ''{"type":"business-error"}'' ''1''))
     = Inr (JObject [(''type'', JString ''business-error'')]) \<and>
   type_field (JObject [(''type'', JString ''business-error'')]) = Some (JString ''business-error'') \<and>
   message ''m2'' ''{"type":"business-error"}'' ''2'' \<noteq> message ''m2'' ''{"type":"business-error"}'' ''1'' \<and>
   processRecord (message ''m2'' ''{"type":"business-error"}'' ''2'')
     = processRecord (message ''m2'' ''{"type":"business-error"}'' ''1'') \<and>
   settled (processRecord (message ''m2'' ''{"type":"business-error"}'' ''1'')) =
     Inr \<lparr>success = False, messageId = ''m2'',
          error = Some (BusinessLogicError ''Invalid business logic'')\<rparr> \<and>
   handler \<lparr>Records = [message ''m2'' ''{"type":"business-error"}'' ''2'']\<rparr> ()
     = handler \<lparr>Records = [message ''m2'' ''{"type":"business-error"}'' ''1'']\<rparr> () \<and>
   handler \<lparr>Records = [message ''m2'' ''{"type":"business-error"}'' ''1'']\<rparr> () =
     \<lparr>console =
        [ConsoleLog [AStr ''Processing batch of:'', ANum 1],
         ConsoleError [AStr ''Error processing record m2:'',
                       AErr (BusinessLogicError ''Invalid business logic'')],
         ConsoleLog [AStr ''Business logic error for message m2 - will be sent to DLQ after max retries'']],
      elapsed_ms = 0,
      outcome = Inr \<lparr>batchItemFailures = [\<lparr>itemIdentifier = ''m2''\<rparr>]\<rparr>\<rparr>\<close>
proof -
  have a: \<open>JSON_parse (body (message ''m2'' ''{"type":"business-error"}'' ''1''))
     = Inr (JObject [(''type'', JString ''business-error'')])\<close>
    by (simp add: parse_business)
  have b: "type_field (JObject [(''type'', JString ''business-error'')]) = Some (JString ''business-error'')"
    by simp
  have c: \<open>SQSRecord.messageId (message ''m2'' ''{"type":"business-error"}'' ''2'')
      = SQSRecord.messageId (message ''m2'' ''{"type":"business-error"}'' ''1'')\<close>
    and d: \<open>body (message ''m2'' ''{"type":"business-error"}'' ''2'')
      = body (message ''m2'' ''{"type":"business-error"}'' ''1'')\<close>
    by simp_all
  have e: \<open>message ''m2'' ''{"type":"business-error"}'' ''2''
      \<noteq> message ''m2'' ''{"type":"business-error"}'' ''1''\<close>
    by (simp add: message_def)
  from C6_business_error_redelivery [OF a b c d, of "()" "()"] a b e show ?thesis
    by simp
qed

lemma processRecord_wake_le: "wake (processRecord r) \<le> 5000"
  using processRecord_wake [of r] by linarith

lemma reported_append: "reported (xs @ ys) = reported xs @ reported ys"
  by (simp add: reported_def)

text \<open>
  C7. A message with the body \<^verbatim>\<open>{"type":"timeout"}\<close> waits for its timer of 5000 ms and
  then gives a failure with the error \<^verbatim>\<open>Operation timed out\<close>. In a batch whose other
  messages parse, the handler still fulfils: the other messages are reported exactly as
  in the batch without the timeout message, the timeout message is reported at its
  place, and the whole batch takes the 5000 ms of one timer, however many messages
  wait. (A timer is taken to fire after its delay.)
\<close>

theorem C7_timeout_completes:
  assumes \<open>body t = ''{"type":"timeout"}''\<close>
    and "\<forall>r\<in>set (xs @ ys). parses r"
  shows "processRecord t =
           \<lparr>console_sync = [], timer_ms = Some 5000,
            console_resumed =
              [ConsoleError [AStr (''Error processing record '' @ SQSRecord.messageId t @ '':''),
                             AErr (Error ''Operation timed out'')]],
            settled = Inr \<lparr>success = False, messageId = SQSRecord.messageId t,
                           error = Some (Error ''Operation timed out'')\<rparr>\<rparr> \<and>
         outcome (handler \<lparr>Records = xs @ [t] @ ys\<rparr> context) =
           Inr \<lparr>batchItemFailures =
                  reported xs @ [\<lparr>itemIdentifier = SQSRecord.messageId t\<rparr>] @ reported ys\<rparr> \<and>
         outcome (handler \<lparr>Records = xs @ ys\<rparr> context) =
           Inr \<lparr>batchItemFailures = reported xs @ reported ys\<rparr> \<and>
         elapsed_ms (handler \<lparr>Records = xs @ [t] @ ys\<rparr> context) = 5000"
proof -
  have parsed: \<open>JSON_parse (body t) = Inr (JObject [(''type'', JString ''timeout'')])\<close>
    using assms(1) by (simp add: parse_timeout)
  have p: "processRecord t =
           \<lparr>console_sync = [], timer_ms = Some 5000,
            console_resumed =
              [ConsoleError [AStr (''Error processing record '' @ SQSRecord.messageId t @ '':''),
                             AErr (Error ''Operation timed out'')]],
            settled = Inr \<lparr>success = False, messageId = SQSRecord.messageId t,
                           error = Some (Error ''Operation timed out'')\<rparr>\<rparr>"
    using processRecord_timeout [OF parsed] by (simp add: catch_log_def catch_result_def)
  have all: "\<forall>r\<in>set (Records \<lparr>Records = xs @ [t] @ ys\<rparr>). parses r"
    using assms by (auto simp: parses_bodies)
  have rest: "\<forall>r\<in>set (Records \<lparr>Records = xs @ ys\<rparr>). parses r"
    using assms(2) by simp
  have "reported (t # ys) = \<lparr>itemIdentifier = SQSRecord.messageId t\<rparr> # reported ys"
    using assms(1) by (simp add: reported_def failed_bodies)
  then have with_t: "outcome (handler \<lparr>Records = xs @ [t] @ ys\<rparr> context) =
           Inr \<lparr>batchItemFailures =
                  reported xs @ [\<lparr>itemIdentifier = SQSRecord.messageId t\<rparr>] @ reported ys\<rparr>"
    using handler_fulfilled [OF all, of "context"] by (simp add: reported_append)
  have without_t: "outcome (handler \<lparr>Records = xs @ ys\<rparr> context) =
           Inr \<lparr>batchItemFailures = reported xs @ reported ys\<rparr>"
    using handler_fulfilled [OF rest, of "context"] by (simp add: reported_append)
  let ?ps = "map processRecord (xs @ [t] @ ys)"
  have "\<forall>q\<in>set ?ps. \<exists>v. settled q = Inr v"
    using all processRecord_fulfilled_iff by auto
  moreover have "\<forall>q\<in>set ?ps. wake q \<le> 5000"
    by (auto simp: processRecord_wake_le)
  moreover have "processRecord t \<in> set ?ps"
    by simp
  moreover have "wake (processRecord t) = 5000"
    by (simp add: p wake_def)
  ultimately have "elapsed_ms (Promise_all ?ps) = 5000"
    by (rule Promise_all_elapsed)
  then have "elapsed_ms (handler \<lparr>Records = xs @ [t] @ ys\<rparr> context) = 5000"
    by (simp add: handler_elapsed)
  with p with_t without_t show ?thesis
    by (intro conjI)
qed

theorem C7_timeout_completes_witness:
  \<open>body (message ''m4'' ''{"type":"timeout"}'' ''1'') = ''{"type":"timeout"}'' \<and>
   parses (message ''m1'' ''{"type":"ok"}'' ''1'') \<and>
   parses (message ''m2'' ''{"type":"business-error"}'' ''1'') \<and>
   settled (processRecord (message ''m4'' ''{"type":"timeout"}'' ''1'')) =
     Inr \<lparr>success = False, messageId = ''m4'', error = Some (Error ''Operation timed out'')\<rparr> \<and>
   timer_ms (processRecord (message ''m4'' ''{"type":"timeout"}'' ''1'')) = Some 5000 \<and>
   outcome (handler \<lparr>Records = [message ''m1'' ''{"type":"ok"}'' ''1'',
                                 message ''m4'' ''{"type":"timeout"}'' ''1'',
                                 message ''m2'' ''{"type":"business-error"}'' ''1'']\<rparr> ()) =
     Inr \<lparr>batchItemFailures = [\<lparr>itemIdentifier = ''m4''\<rparr>, \<lparr>itemIdentifier = ''m2''\<rparr>]\<rparr> \<and>
   outcome (handler \<lparr>Records = [message ''m1'' ''{"type":"ok"}'' ''1'',
                                 message ''m2'' ''{"type":"business-error"}'' ''1'']\<rparr> ()) =
     Inr \<lparr>batchItemFailures = [\<lparr>itemIdentifier = ''m2''\<rparr>]\<rparr> \<and>
   elapsed_ms (handler \<lparr>Records = [message ''m1'' ''{"type":"ok"}'' ''1'',
                                    message ''m4'' ''{"type":"timeout"}'' ''1'',
                                    message ''m2'' ''{"type":"business-error"}'' ''1'']\<rparr> ()) = 5000\<close>
proof -
  have b: \<open>body (message ''m4'' ''{"type":"timeout"}'' ''1'') = ''{"type":"timeout"}''\<close>
    by simp
  have p1: \<open>parses (message ''m1'' ''{"type":"ok"}'' ''1'')\<close>
    and p2: \<open>parses (message ''m2'' ''{"type":"business-error"}'' ''1'')\<close>
    by (simp_all add: parses_bodies)
  then have s: \<open>\<forall>r\<in>set ([message ''m1'' ''{"type":"ok"}'' ''1''] @
              [message ''m2'' ''{"type":"business-error"}'' ''1'']). parses r\<close>
    by simp
  from C7_timeout_completes [OF b s, of "()"] b p1 p2 show ?thesis
    by (simp add: reported_def failed_bodies)
qed

text \<open>
  C8. What the handler does depends on the identifier and the body of each record only:
  two batches whose records agree, one by one, on \<^verbatim>\<open>messageId\<close> and \<^verbatim>\<open>body\<close> give the
  same run, and so the same \<^verbatim>\<open>batchItemFailures\<close>, whatever the receive counts, the
  receipt handles, the other metadata and the \<^verbatim>\<open>context\<close> are.
\<close>

theorem C8_failures_depend_on_id_and_body:
  assumes "map (\<lambda>r. (SQSRecord.messageId r, body r)) (Records event) =
           map (\<lambda>r. (SQSRecord.messageId r, body r)) (Records event')"
  shows "handler event context = handler event' context'"
  using assms by (rule handler_depends)

theorem C8_failures_depend_on_id_and_body_witness:
  "map (\<lambda>r. (SQSRecord.messageId r, body r)) (Records sample_batch) =
   map (\<lambda>r. (SQSRecord.messageId r, body r)) (Records redelivered_batch) \<and>
   map attributes (Records sample_batch) \<noteq> map attributes (Records redelivered_batch) \<and>
   handler sample_batch () = handler redelivered_batch True \<and>
   outcome (handler redelivered_batch True) = Inr sample_response"
proof -
  have k: "map (\<lambda>r. (SQSRecord.messageId r, body r)) (Records sample_batch) =
           map (\<lambda>r. (SQSRecord.messageId r, body r)) (Records redelivered_batch)"
    by (simp add: sample_batch_def redelivered_batch_def)
  have a: "map attributes (Records sample_batch) \<noteq> map attributes (Records redelivered_batch)"
    by (simp add: sample_batch_def redelivered_batch_def message_def)
  from C8_failures_depend_on_id_and_body [OF k, of "()" True]
  have h: "handler sample_batch () = handler redelivered_batch True" .
  with sample_batch_outcome [of "()"] have "outcome (handler redelivered_batch True) = Inr sample_response"
    by simp
  with k a h show ?thesis
    by (intro conjI)
qed

text \<open>
  C9. Every result that \<^verbatim>\<open>processRecord\<close> returns has an \<^verbatim>\<open>error\<close> exactly when its
  \<^verbatim>\<open>success\<close> is false, and its \<^verbatim>\<open>messageId\<close> is the one of the record.
\<close>

theorem C9_result_invariant:
  assumes "settled (processRecord record) = Inr result"
  shows "(error result \<noteq> None \<longleftrightarrow> \<not> success result) \<and>
         messageId result = SQSRecord.messageId record"
  using processRecord_result [OF assms] by simp

theorem C9_result_invariant_witness:
  \<open>settled (processRecord (message ''m3'' ''{"type":"temporary-error"}'' ''1'')) =
     Inr \<lparr>success = False, messageId = ''m3'',
          error = Some (TemporaryError ''Temporary processing error'')\<rparr> \<and>
   (error \<lparr>success = False, messageId = ''m3'',
           error = Some (TemporaryError ''Temporary processing error'')\<rparr> \<noteq> None
      \<longleftrightarrow> \<not> success \<lparr>success = False, messageId = ''m3'',
           error = Some (TemporaryError ''Temporary processing error'')\<rparr>) \<and>
   messageId \<lparr>success = False, messageId = ''m3'',
           error = Some (TemporaryError ''Temporary processing error'')\<rparr>
     = SQSRecord.messageId (message ''m3'' ''{"type":"temporary-error"}'' ''1'')\<close>
proof -
  have s: \<open>settled (processRecord (message ''m3'' ''{"type":"temporary-error"}'' ''1'')) =
     Inr \<lparr>success = False, messageId = ''m3'',
          error = Some (TemporaryError ''Temporary processing error'')\<rparr>\<close>
    by (simp add: processRecord_def parse_temporary get_type_def catch_result_def)
  from C9_result_invariant [OF s] s show ?thesis
    by (intro conjI) (elim conjE, assumption)+
qed

text \<open>
  C10. The entries of \<^verbatim>\<open>batchItemFailures\<close> are the failed messages in the order of
  \<^verbatim>\<open>event.Records\<close>: when message \<open>i\<close> stands before message \<open>j\<close> and both failed,
  the identifier of \<open>i\<close> stands before the identifier of \<open>j\<close> in the list.
\<close>

theorem C10_failures_keep_batch_order:
  assumes "outcome (handler event context) = Inr response"
    and "i < j" and "j < length (Records event)"
    and "failed (Records event ! i)" and "failed (Records event ! j)"
  shows "batchItemFailures response =
           map (\<lambda>r. \<lparr>itemIdentifier = SQSRecord.messageId r\<rparr>) (filter failed (Records event)) \<and>
         (\<exists>p q. p < q \<and> q < length (batchItemFailures response) \<and>
            itemIdentifier (batchItemFailures response ! p) = SQSRecord.messageId (Records event ! i) \<and>
            itemIdentifier (batchItemFailures response ! q) = SQSRecord.messageId (Records event ! j))"
proof -
  from handler_returns [OF assms(1)]
  have r: "batchItemFailures response =
           map (\<lambda>r. \<lparr>itemIdentifier = SQSRecord.messageId r\<rparr>) (filter failed (Records event))"
    by (simp add: reported_def)
  from filter_keeps_order [OF assms(2-5)]
  obtain p q where pq: "p < q" "q < length (filter failed (Records event))"
    "filter failed (Records event) ! p = Records event ! i"
    "filter failed (Records event) ! q = Records event ! j"
    by blast
  then have "q < length (batchItemFailures response)"
    and "itemIdentifier (batchItemFailures response ! p) = SQSRecord.messageId (Records event ! i)"
    and "itemIdentifier (batchItemFailures response ! q) = SQSRecord.messageId (Records event ! j)"
    by (simp_all add: r)
  with r pq(1) show ?thesis
    by blast
qed

theorem C10_failures_keep_batch_order_witness:
  "outcome (handler sample_batch ()) = Inr sample_response \<and>
   (1::nat) < 2 \<and> 2 < length (Records sample_batch) \<and>
   failed (Records sample_batch ! 1) \<and> failed (Records sample_batch ! 2) \<and>
   batchItemFailures sample_response =
     map (\<lambda>r. \<lparr>itemIdentifier = SQSRecord.messageId r\<rparr>) (filter failed (Records sample_batch)) \<and>
   (\<exists>p q. p < q \<and> q < length (batchItemFailures sample_response) \<and>
      itemIdentifier (batchItemFailures sample_response ! p)
        = SQSRecord.messageId (Records sample_batch ! 1) \<and>
      itemIdentifier (batchItemFailures sample_response ! q)
        = SQSRecord.messageId (Records sample_batch ! 2))"
proof -
  have h: "outcome (handler sample_batch ()) = Inr sample_response"
    by (rule sample_batch_outcome)
  have lt: "(1::nat) < 2" and len: "2 < length (Records sample_batch)"
    by (simp_all add: sample_batch_def)
  have f1: "failed (Records sample_batch ! 1)" and f2: "failed (Records sample_batch ! 2)"
    by (simp_all add: sample_batch_def failed_bodies)
  from C10_failures_keep_batch_order [OF h lt len f1 f2] h lt len f1 f2 show ?thesis
    by (intro conjI) (elim conjE, assumption)+
qed

end
